theory Spec2Isabelle
  imports Complex_Main "HOL-Library.Log_Nat"
begin

section \<open>Zero-crossing estimation in the figure scripts\<close>

text \<open>
  The scripts under \<^verbatim>\<open>scripts/\<close> estimate where a sampled curve crosses zero.
  Each of them holds its own copy of one scan over the segments \<open>[i, i+1]\<close> of two
  arrays \<open>x\<close> and \<open>y\<close>:
  \<^item> \<^verbatim>\<open>zero_crossings_sigmaCumEnd_RMST.py\<close>: \<^verbatim>\<open>zero_crossings_linear_interp\<close>, every crossing;
  \<^item> \<^verbatim>\<open>make_fig23.py\<close> and \<^verbatim>\<open>zero_crossings_AE_RMST.py\<close>: \<^verbatim>\<open>first_zero_crossing_linear\<close>;
  \<^item> \<^verbatim>\<open>make_fig6.py\<close>: \<^verbatim>\<open>first_zero_crossing\<close>;
  \<^item> \<^verbatim>\<open>zero_crossing_AE_closeup.py\<close>: a loop at top level that breaks at the first hit;
  \<^item> \<^verbatim>\<open>make_fig7.py\<close>: \<^verbatim>\<open>last_zero_crossing\<close>, the last crossing.

  The arrays hold float64 values. The arithmetic of float64 is numpy's, not the
  scripts', so the scan is written twice:
  \<^item> with exact real arithmetic, a zero divisor being an error branch of its own. All six
    scans are given in this form; it has no rounding, overflow, infinity or NaN;
  \<^item> with the arithmetic as a parameter (the comparisons with zero and the five
    operations the scan uses), for \<^verbatim>\<open>zero_crossings_linear_interp\<close>. Exact arithmetic
    is one instance, IEEE 754 binary64 another; what is proved for every arithmetic holds
    of the float64 code.

  The two arrays are separate arguments, as in the source, so a read past the end of
  either is a branch of the model.
\<close>

subsection \<open>Array reads, division and \<^verbatim>\<open>range\<close>\<close>

datatype py_error = IndexError | ZeroDivisionError

text \<open>
  \<^verbatim>\<open>a[i]\<close> for a loop index \<open>i\<close>, which is never negative here: past the end it raises.
\<close>

definition getitem :: "'a list \<Rightarrow> nat \<Rightarrow> py_error + 'a" where
  "getitem a i = (if i < length a then Inr (a ! i) else Inl IndexError)"

text \<open>
  \<^verbatim>\<open>p / q\<close>. A zero divisor is kept as an error branch of its own (Python floats raise
  ZeroDivisionError; float64 scalars warn and yield an infinity or NaN).
\<close>

definition fdiv :: "real \<Rightarrow> real \<Rightarrow> py_error + real" where
  "fdiv p q = (if q = 0 then Inl ZeroDivisionError else Inr (p / q))"

text \<open>\<^verbatim>\<open>range(n)\<close> for a Python integer \<open>n\<close>: empty when \<open>n \<le> 0\<close>.\<close>

definition range_py :: "int \<Rightarrow> nat list" where
  "range_py n = [0..<nat n]"

text \<open>
  \<^verbatim>\<open>np.asarray(a, dtype=float)\<close> on an array of floats leaves the values as they are.
\<close>

definition asarray_float :: "real list \<Rightarrow> real list" where
  "asarray_float a = a"

text \<open>The tuple assignment \<^verbatim>\<open>u, v = a[i], a[i + 1]\<close>: both reads, left to right.\<close>

definition load2 :: "'a list \<Rightarrow> nat \<Rightarrow> py_error + 'a \<times> 'a" where
  "load2 a i =
     (case getitem a i of
        Inl e \<Rightarrow> Inl e
      | Inr u \<Rightarrow> (case getitem a (i + 1) of Inl e \<Rightarrow> Inl e | Inr v \<Rightarrow> Inr (u, v)))"

text \<open>
  The expression \<^verbatim>\<open>xi + (xj - xi) * (-yi) / (yj - yi)\<close>, which every script spells the
  same way: the product is divided, then \<open>xi\<close> is added.
\<close>

definition interp :: "real \<Rightarrow> real \<Rightarrow> real \<Rightarrow> real \<Rightarrow> py_error + real" where
  "interp xi xj yi yj =
     (case fdiv ((xj - xi) * (- yi)) (yj - yi) of
        Inl e \<Rightarrow> Inl e
      | Inr q \<Rightarrow> Inr (xi + q))"

subsection \<open>All crossings: \<^verbatim>\<open>zero_crossings_sigmaCumEnd_RMST.py\<close>\<close>

text \<open>
  The body of the \<^verbatim>\<open>for\<close> loop over the remaining indices, with the list \<open>out\<close> it
  appends to. \<^verbatim>\<open>continue\<close> after the exact-zero branch goes on with the next index.
\<close>

fun zero_crossings_loop ::
  "real list \<Rightarrow> real list \<Rightarrow> nat list \<Rightarrow> (real \<times> nat) list \<Rightarrow> py_error + (real \<times> nat) list"
where
  "zero_crossings_loop x y [] out = Inr out"
| "zero_crossings_loop x y (i # rest) out =
     (case load2 y i of
        Inl e \<Rightarrow> Inl e
      | Inr (yi, yj) \<Rightarrow>
          (case load2 x i of
             Inl e \<Rightarrow> Inl e
           | Inr (xi, xj) \<Rightarrow>
               if yi = 0 then zero_crossings_loop x y rest (out @ [(xi, i)])
               else if yi * yj < 0 then
                 (case interp xi xj yi yj of
                    Inl e \<Rightarrow> Inl e
                  | Inr x0 \<Rightarrow> zero_crossings_loop x y rest (out @ [(x0, i)]))
               else zero_crossings_loop x y rest out))"

definition zero_crossings_linear_interp ::
  "real list \<Rightarrow> real list \<Rightarrow> py_error + (real \<times> nat) list"
where
  "zero_crossings_linear_interp x y =
     zero_crossings_loop x y (range_py (int (length y) - 1)) []"

subsection \<open>First crossing: \<^verbatim>\<open>make_fig23.py\<close>\<close>

fun first_zero_crossing_linear_loop ::
  "real list \<Rightarrow> real list \<Rightarrow> nat list \<Rightarrow> py_error + real option"
where
  "first_zero_crossing_linear_loop x y [] = Inr None"
| "first_zero_crossing_linear_loop x y (i # rest) =
     (case load2 y i of
        Inl e \<Rightarrow> Inl e
      | Inr (yi, yj) \<Rightarrow>
          (case load2 x i of
             Inl e \<Rightarrow> Inl e
           | Inr (xi, xj) \<Rightarrow>
               if yi = 0 then Inr (Some xi)
               else if yi * yj < 0 then
                 (case interp xi xj yi yj of
                    Inl e \<Rightarrow> Inl e
                  | Inr x0 \<Rightarrow> Inr (Some x0))
               else first_zero_crossing_linear_loop x y rest))"

definition first_zero_crossing_linear :: "real list \<Rightarrow> real list \<Rightarrow> py_error + real option" where
  "first_zero_crossing_linear x y =
     first_zero_crossing_linear_loop x y (range_py (int (length y) - 1))"

subsection \<open>First crossing: \<^verbatim>\<open>zero_crossings_AE_RMST.py\<close>\<close>

fun first_zero_crossing_linear_AE_RMST_loop ::
  "real list \<Rightarrow> real list \<Rightarrow> nat list \<Rightarrow> py_error + real option"
where
  "first_zero_crossing_linear_AE_RMST_loop x y [] = Inr None"
| "first_zero_crossing_linear_AE_RMST_loop x y (i # rest) =
     (case load2 y i of
        Inl e \<Rightarrow> Inl e
      | Inr (yi, yj) \<Rightarrow>
          (case load2 x i of
             Inl e \<Rightarrow> Inl e
           | Inr (xi, xj) \<Rightarrow>
               if yi = 0 then Inr (Some xi)
               else if yi * yj < 0 then
                 (case interp xi xj yi yj of
                    Inl e \<Rightarrow> Inl e
                  | Inr x0 \<Rightarrow> Inr (Some x0))
               else first_zero_crossing_linear_AE_RMST_loop x y rest))"

definition first_zero_crossing_linear_AE_RMST ::
  "real list \<Rightarrow> real list \<Rightarrow> py_error + real option"
where
  "first_zero_crossing_linear_AE_RMST x y =
     first_zero_crossing_linear_AE_RMST_loop x y (range_py (int (length y) - 1))"

subsection \<open>First crossing: \<^verbatim>\<open>make_fig6.py\<close>\<close>

fun first_zero_crossing_loop ::
  "real list \<Rightarrow> real list \<Rightarrow> nat list \<Rightarrow> py_error + real option"
where
  "first_zero_crossing_loop x y [] = Inr None"
| "first_zero_crossing_loop x y (i # rest) =
     (case load2 y i of
        Inl e \<Rightarrow> Inl e
      | Inr (yi, yj) \<Rightarrow>
          (case load2 x i of
             Inl e \<Rightarrow> Inl e
           | Inr (xi, xj) \<Rightarrow>
               if yi = 0 then Inr (Some xi)
               else if yi * yj < 0 then
                 (case interp xi xj yi yj of
                    Inl e \<Rightarrow> Inl e
                  | Inr x0 \<Rightarrow> Inr (Some x0))
               else first_zero_crossing_loop x y rest))"

text \<open>Both arguments pass through \<^verbatim>\<open>np.asarray\<close> before the loop.\<close>

definition first_zero_crossing :: "real list \<Rightarrow> real list \<Rightarrow> py_error + real option" where
  "first_zero_crossing x y =
     (let x' = asarray_float x; y' = asarray_float y
      in first_zero_crossing_loop x' y' (range_py (int (length y') - 1)))"

subsection \<open>First crossing: the loop of \<^verbatim>\<open>zero_crossing_AE_closeup.py\<close>\<close>

text \<open>
  The script sets \<^verbatim>\<open>zc = None\<close>, then loops; each hit assigns \<open>zc\<close> and breaks. The
  value is \<open>zc\<close> after the loop.
\<close>

fun zc_closeup_loop ::
  "real list \<Rightarrow> real list \<Rightarrow> nat list \<Rightarrow> real option \<Rightarrow> py_error + real option"
where
  "zc_closeup_loop x y [] zc = Inr zc"
| "zc_closeup_loop x y (i # rest) zc =
     (case load2 y i of
        Inl e \<Rightarrow> Inl e
      | Inr (yi, yj) \<Rightarrow>
          (case load2 x i of
             Inl e \<Rightarrow> Inl e
           | Inr (xi, xj) \<Rightarrow>
               if yi = 0 then Inr (Some xi)
               else if yi * yj < 0 then
                 (case interp xi xj yi yj of
                    Inl e \<Rightarrow> Inl e
                  | Inr x0 \<Rightarrow> Inr (Some x0))
               else zc_closeup_loop x y rest zc))"

definition zc_closeup :: "real list \<Rightarrow> real list \<Rightarrow> py_error + real option" where
  "zc_closeup x y = zc_closeup_loop x y (range_py (int (length y) - 1)) None"

subsection \<open>Last crossing: \<^verbatim>\<open>make_fig7.py\<close>\<close>

text \<open>The running result \<open>zc\<close> is overwritten at every hit; the scan never stops early.\<close>

fun last_zero_crossing_loop ::
  "real list \<Rightarrow> real list \<Rightarrow> nat list \<Rightarrow> real option \<Rightarrow> py_error + real option"
where
  "last_zero_crossing_loop x y [] zc = Inr zc"
| "last_zero_crossing_loop x y (i # rest) zc =
     (case load2 y i of
        Inl e \<Rightarrow> Inl e
      | Inr (yi, yj) \<Rightarrow>
          (case load2 x i of
             Inl e \<Rightarrow> Inl e
           | Inr (xi, xj) \<Rightarrow>
               if yi = 0 then last_zero_crossing_loop x y rest (Some xi)
               else if yi * yj < 0 then
                 (case interp xi xj yi yj of
                    Inl e \<Rightarrow> Inl e
                  | Inr x0 \<Rightarrow> last_zero_crossing_loop x y rest (Some x0))
               else last_zero_crossing_loop x y rest zc))"

definition last_zero_crossing :: "real list \<Rightarrow> real list \<Rightarrow> py_error + real option" where
  "last_zero_crossing x y =
     (let x' = asarray_float x; y' = asarray_float y
      in last_zero_crossing_loop x' y' (range_py (int (length y') - 1)) None)"

subsection \<open>The rule of the specification, segment by segment\<close>

text \<open>
  A sign change, in the words of the glossary: two consecutive values of strictly
  opposite sign, both nonzero.
\<close>

definition sign_change :: "real \<Rightarrow> real \<Rightarrow> bool" where
  "sign_change a b = ((a < 0 \<and> 0 < b) \<or> (0 < a \<and> b < 0))"

text \<open>
  What segment \<open>i\<close> contributes according to the specification's algorithm: the sample
  itself when \<open>y[i]\<close> is zero, the interpolated point when the product is negative, and
  nothing otherwise. It reads the lists directly, so it is meant for \<open>i + 1\<close> within
  both of them.
\<close>

definition segment_crossing :: "real list \<Rightarrow> real list \<Rightarrow> nat \<Rightarrow> (real \<times> nat) option" where
  "segment_crossing x y i =
     (if y ! i = 0 then Some (x ! i, i)
      else if y ! i * y ! (i + 1) < 0 then
        Some (x ! i + (x ! (i + 1) - x ! i) * (- (y ! i)) / (y ! (i + 1) - y ! i), i)
      else None)"

definition segments :: "'a list \<Rightarrow> nat list" where
  "segments y = [0..<length y - 1]"

definition crossings_spec :: "real list \<Rightarrow> real list \<Rightarrow> (real \<times> nat) list" where
  "crossings_spec x y = List.map_filter (segment_crossing x y) (segments y)"


subsection \<open>The scan of \<^verbatim>\<open>zero_crossings_linear_interp\<close> over any arithmetic\<close>

text \<open>
  What the scan asks of its number type: the tests \<^verbatim>\<open>v == 0\<close> and \<^verbatim>\<open>v < 0\<close>,
  product, difference, negation, quotient and sum. A float64 quotient never raises (a
  zero divisor yields an infinity or NaN, which are values), so the quotient is total.
\<close>

record 'f arith =
  f_eq0 :: "'f \<Rightarrow> bool"
  f_lt0 :: "'f \<Rightarrow> bool"
  f_mul :: "'f \<Rightarrow> 'f \<Rightarrow> 'f"
  f_sub :: "'f \<Rightarrow> 'f \<Rightarrow> 'f"
  f_neg :: "'f \<Rightarrow> 'f"
  f_div :: "'f \<Rightarrow> 'f \<Rightarrow> 'f"
  f_add :: "'f \<Rightarrow> 'f \<Rightarrow> 'f"

text \<open>\<^verbatim>\<open>xi + (xj - xi) * (-yi) / (yj - yi)\<close>, in the source's order of evaluation.\<close>

definition interp_in :: "'f arith \<Rightarrow> 'f \<Rightarrow> 'f \<Rightarrow> 'f \<Rightarrow> 'f \<Rightarrow> 'f" where
  "interp_in A xi xj yi yj =
     f_add A xi (f_div A (f_mul A (f_sub A xj xi) (f_neg A yi)) (f_sub A yj yi))"

text \<open>
  The loop of \<^verbatim>\<open>zero_crossings_linear_interp\<close> again, line by line, with every test and
  operation taken from the arithmetic \<open>A\<close>.
\<close>

fun zero_crossings_loop_in ::
  "'f arith \<Rightarrow> 'f list \<Rightarrow> 'f list \<Rightarrow> nat list \<Rightarrow> ('f \<times> nat) list
     \<Rightarrow> py_error + ('f \<times> nat) list"
where
  "zero_crossings_loop_in A x y [] out = Inr out"
| "zero_crossings_loop_in A x y (i # rest) out =
     (case load2 y i of
        Inl e \<Rightarrow> Inl e
      | Inr (yi, yj) \<Rightarrow>
          (case load2 x i of
             Inl e \<Rightarrow> Inl e
           | Inr (xi, xj) \<Rightarrow>
               if f_eq0 A yi then zero_crossings_loop_in A x y rest (out @ [(xi, i)])
               else if f_lt0 A (f_mul A yi yj) then
                 zero_crossings_loop_in A x y rest (out @ [(interp_in A xi xj yi yj, i)])
               else zero_crossings_loop_in A x y rest out))"

definition zero_crossings_linear_interp_in ::
  "'f arith \<Rightarrow> 'f list \<Rightarrow> 'f list \<Rightarrow> py_error + ('f \<times> nat) list"
where
  "zero_crossings_linear_interp_in A x y =
     zero_crossings_loop_in A x y (range_py (int (length y) - 1)) []"

text \<open>Exact real arithmetic. Its quotient is only ever used with a nonzero divisor.\<close>

definition exact_arith :: "real arith" where
  "exact_arith =
     \<lparr> f_eq0 = (\<lambda>v. v = 0), f_lt0 = (\<lambda>v. v < 0), f_mul = (*), f_sub = (-),
       f_neg = uminus, f_div = (/), f_add = (+) \<rparr>"

text \<open>The contribution of segment \<open>i\<close> and the list of all contributions, over \<open>A\<close>.\<close>

definition segment_crossing_in :: "'f arith \<Rightarrow> 'f list \<Rightarrow> 'f list \<Rightarrow> nat \<Rightarrow> ('f \<times> nat) option" where
  "segment_crossing_in A x y i =
     (if f_eq0 A (y ! i) then Some (x ! i, i)
      else if f_lt0 A (f_mul A (y ! i) (y ! (i + 1))) then
        Some (interp_in A (x ! i) (x ! (i + 1)) (y ! i) (y ! (i + 1)), i)
      else None)"

definition crossings_in :: "'f arith \<Rightarrow> 'f list \<Rightarrow> 'f list \<Rightarrow> ('f \<times> nat) list" where
  "crossings_in A x y = List.map_filter (segment_crossing_in A x y) (segments y)"

subsection \<open>IEEE 754 binary64\<close>

text \<open>
  The values of float64: a nonzero finite number, a zero or an infinity with its sign
  bit (\<open>True\<close> for negative), or NaN.
\<close>

datatype f64 = Num real | Zero bool | Inf bool | NaN

text \<open>\<open>ilog2 q\<close> is the exponent \<open>e\<close> with \<open>2^e \<le> q < 2^(e+1)\<close>, for \<open>q > 0\<close>.\<close>

definition ilog2 :: "real \<Rightarrow> int" where
  "ilog2 q =
     (if 1 \<le> q then bitlen \<lfloor>q\<rfloor> - 1 else - bitlen (\<lceil>1 / q\<rceil> - 1))"

text \<open>
  Rounding of a magnitude \<open>q \<ge> 0\<close> to the nearest multiple of the unit in the last
  place, ties to the even multiple. The significand has 53 bits, so the unit is
  \<open>2^(e - 52)\<close>; below \<open>2^(-1022)\<close> the numbers are subnormal and the unit stays
  \<open>2^(-1074)\<close>.
\<close>

definition rmag :: "real \<Rightarrow> real" where
  "rmag q =
     (let e = max (ilog2 q) (- 1022);
          u = (if 52 \<le> e then 2 ^ nat (e - 52) else 1 / 2 ^ nat (52 - e));
          r = q / u;
          f = \<lfloor>r\<rfloor>;
          d = r - of_int f;
          n = (if d < 1 / 2 then f else if 1 / 2 < d then f + 1
               else if even f then f else f + 1)
      in of_int n * u)"

text \<open>
  Rounding of an exact result: a magnitude that rounds to zero keeps the sign as a signed
  zero, one that reaches \<open>2^1024\<close> overflows to the infinity of that sign.
\<close>

definition round64 :: "real \<Rightarrow> f64" where
  "round64 q =
     (let m = rmag \<bar>q\<bar>
      in if m = 0 then Zero (q < 0)
         else if 2 ^ 1024 \<le> m then Inf (q < 0)
         else Num (if q < 0 then - m else m))"

text \<open>
  The operations: the special cases of IEEE 754 first, then the rounded exact result. An
  exact sum of zero is \<open>+0\<close>; \<open>a - b\<close> is \<open>a + (-b)\<close>.
\<close>

fun f64_neg :: "f64 \<Rightarrow> f64" where
  "f64_neg (Num a) = Num (- a)"
| "f64_neg (Zero s) = Zero (\<not> s)"
| "f64_neg (Inf s) = Inf (\<not> s)"
| "f64_neg NaN = NaN"

fun f64_mul :: "f64 \<Rightarrow> f64 \<Rightarrow> f64" where
  "f64_mul NaN _ = NaN"
| "f64_mul _ NaN = NaN"
| "f64_mul (Inf s) (Zero t) = NaN"
| "f64_mul (Zero s) (Inf t) = NaN"
| "f64_mul (Inf s) (Inf t) = Inf (s \<noteq> t)"
| "f64_mul (Inf s) (Num b) = Inf (s \<noteq> (b < 0))"
| "f64_mul (Num a) (Inf t) = Inf ((a < 0) \<noteq> t)"
| "f64_mul (Zero s) (Zero t) = Zero (s \<noteq> t)"
| "f64_mul (Zero s) (Num b) = Zero (s \<noteq> (b < 0))"
| "f64_mul (Num a) (Zero t) = Zero ((a < 0) \<noteq> t)"
| "f64_mul (Num a) (Num b) = round64 (a * b)"

fun f64_add :: "f64 \<Rightarrow> f64 \<Rightarrow> f64" where
  "f64_add NaN _ = NaN"
| "f64_add _ NaN = NaN"
| "f64_add (Inf s) (Inf t) = (if s = t then Inf s else NaN)"
| "f64_add (Inf s) _ = Inf s"
| "f64_add _ (Inf t) = Inf t"
| "f64_add (Zero s) (Zero t) = Zero (s \<and> t)"
| "f64_add (Zero s) (Num b) = Num b"
| "f64_add (Num a) (Zero t) = Num a"
| "f64_add (Num a) (Num b) = (if a + b = 0 then Zero False else round64 (a + b))"

definition f64_sub :: "f64 \<Rightarrow> f64 \<Rightarrow> f64" where
  "f64_sub a b = f64_add a (f64_neg b)"

fun f64_div :: "f64 \<Rightarrow> f64 \<Rightarrow> f64" where
  "f64_div NaN _ = NaN"
| "f64_div _ NaN = NaN"
| "f64_div (Inf s) (Inf t) = NaN"
| "f64_div (Zero s) (Zero t) = NaN"
| "f64_div (Inf s) (Zero t) = Inf (s \<noteq> t)"
| "f64_div (Inf s) (Num b) = Inf (s \<noteq> (b < 0))"
| "f64_div (Zero s) (Inf t) = Zero (s \<noteq> t)"
| "f64_div (Num a) (Inf t) = Zero ((a < 0) \<noteq> t)"
| "f64_div (Zero s) (Num b) = Zero (s \<noteq> (b < 0))"
| "f64_div (Num a) (Zero t) = Inf ((a < 0) \<noteq> t)"
| "f64_div (Num a) (Num b) = round64 (a / b)"

fun f64_eq0 :: "f64 \<Rightarrow> bool" where
  "f64_eq0 (Zero s) = True"
| "f64_eq0 _ = False"

fun f64_lt0 :: "f64 \<Rightarrow> bool" where
  "f64_lt0 (Num a) = (a < 0)"
| "f64_lt0 (Inf s) = s"
| "f64_lt0 _ = False"

definition binary64 :: "f64 arith" where
  "binary64 =
     \<lparr> f_eq0 = f64_eq0, f_lt0 = f64_lt0, f_mul = f64_mul, f_sub = f64_sub,
       f_neg = f64_neg, f_div = f64_div, f_add = f64_add \<rparr>"

section \<open>Basic facts\<close>

lemma range_py_segments: "range_py (int (length y) - 1) = segments y"
  by (simp add: range_py_def segments_def nat_diff_distrib')

lemma load2_in_range: "i + 1 < length a \<Longrightarrow> load2 a i = Inr (a ! i, a ! (i + 1))"
  by (simp add: load2_def getitem_def)

lemma sign_change_iff_product: "sign_change a b \<longleftrightarrow> a * b < 0"
  by (auto simp: sign_change_def mult_less_0_iff)

lemma product_neg_divisor: "yi * yj < 0 \<Longrightarrow> yj - yi \<noteq> (0::real)"
  by (auto simp: mult_less_0_iff)

lemma interp_product_neg:
  "yi * yj < 0 \<Longrightarrow> interp xi xj yi yj = Inr (xi + (xj - xi) * (- yi) / (yj - yi))"
  using product_neg_divisor [of yi yj] by (simp add: interp_def fdiv_def)

lemma segments_mem: "i \<in> set (segments y) \<longleftrightarrow> i + 1 < length y"
  by (auto simp: segments_def)

section \<open>The loops on a series\<close>

text \<open>
  When every index of the scan has its right neighbour inside both arrays, no read
  fails and each loop is determined by the list of segment contributions.
\<close>

lemma zero_crossings_loop_eq:
  "(\<And>i. i \<in> set idx \<Longrightarrow> i + 1 < length y \<and> i + 1 < length x) \<Longrightarrow>
   zero_crossings_loop x y idx out = Inr (out @ List.map_filter (segment_crossing x y) idx)"
proof (induction idx arbitrary: out)
  case Nil
  then show ?case by simp
next
  case (Cons i rest)
  have i: "i + 1 < length y" "i + 1 < length x" using Cons.prems by auto
  have rest: "\<And>j. j \<in> set rest \<Longrightarrow> j + 1 < length y \<and> j + 1 < length x"
    using Cons.prems by auto
  show ?case
    using i Cons.IH [OF rest]
    by (simp add: load2_in_range segment_crossing_def interp_product_neg)
qed

lemma first_zero_crossing_linear_loop_eq:
  "(\<And>i. i \<in> set idx \<Longrightarrow> i + 1 < length y \<and> i + 1 < length x) \<Longrightarrow>
   first_zero_crossing_linear_loop x y idx =
     Inr (case List.map_filter (segment_crossing x y) idx of
            [] \<Rightarrow> None | c # _ \<Rightarrow> Some (fst c))"
proof (induction idx)
  case Nil
  then show ?case by simp
next
  case (Cons i rest)
  have i: "i + 1 < length y" "i + 1 < length x" using Cons.prems by auto
  have rest: "\<And>j. j \<in> set rest \<Longrightarrow> j + 1 < length y \<and> j + 1 < length x"
    using Cons.prems by auto
  show ?case
    using i Cons.IH [OF rest]
    by (simp add: load2_in_range segment_crossing_def interp_product_neg)
qed

lemma last_zero_crossing_loop_eq:
  "(\<And>i. i \<in> set idx \<Longrightarrow> i + 1 < length y \<and> i + 1 < length x) \<Longrightarrow>
   last_zero_crossing_loop x y idx zc =
     Inr (case List.map_filter (segment_crossing x y) idx of
            [] \<Rightarrow> zc | c # cs \<Rightarrow> Some (fst (last (c # cs))))"
proof (induction idx arbitrary: zc)
  case Nil
  then show ?case by simp
next
  case (Cons i rest)
  have i: "i + 1 < length y" "i + 1 < length x" using Cons.prems by auto
  have rest: "\<And>j. j \<in> set rest \<Longrightarrow> j + 1 < length y \<and> j + 1 < length x"
    using Cons.prems by auto
  show ?case
    using i Cons.IH [OF rest]
    by (simp add: load2_in_range segment_crossing_def interp_product_neg split: list.splits)
qed

lemma series_all:
  "length x = length y \<Longrightarrow> zero_crossings_linear_interp x y = Inr (crossings_spec x y)"
  using zero_crossings_loop_eq [of "segments y" y x "[]"]
  by (simp add: zero_crossings_linear_interp_def range_py_segments crossings_spec_def
      segments_mem)

lemma series_first:
  "length x = length y \<Longrightarrow>
   first_zero_crossing_linear x y =
     Inr (case crossings_spec x y of [] \<Rightarrow> None | c # _ \<Rightarrow> Some (fst c))"
  using first_zero_crossing_linear_loop_eq [of "segments y" y x]
  by (simp add: first_zero_crossing_linear_def range_py_segments crossings_spec_def
      segments_mem)

lemma series_last:
  "length x = length y \<Longrightarrow>
   last_zero_crossing x y =
     Inr (case crossings_spec x y of [] \<Rightarrow> None | c # cs \<Rightarrow> Some (fst (last (c # cs))))"
  using last_zero_crossing_loop_eq [of "segments y" y x None]
  by (simp add: last_zero_crossing_def asarray_float_def range_py_segments crossings_spec_def
      segments_mem)

subsection \<open>The contributions of the segments\<close>

lemma segment_crossing_index: "segment_crossing x y i = Some c \<Longrightarrow> snd c = i"
  by (auto simp: segment_crossing_def split: if_splits)

lemma map_filter_mem:
  "c \<in> set (List.map_filter f idx) \<longleftrightarrow> (\<exists>i \<in> set idx. f i = Some c)"
  by (induction idx) (auto split: option.splits)

lemma crossings_spec_mem:
  "(p, i) \<in> set (crossings_spec x y) \<longleftrightarrow>
     i + 1 < length y \<and> segment_crossing x y i = Some (p, i)"
proof
  assume "(p, i) \<in> set (crossings_spec x y)"
  then obtain j where j: "j + 1 < length y" "segment_crossing x y j = Some (p, i)"
    by (auto simp: crossings_spec_def map_filter_mem segments_mem)
  from segment_crossing_index [OF j(2)] have "j = i" by simp
  with j show "i + 1 < length y \<and> segment_crossing x y i = Some (p, i)" by simp
next
  assume "i + 1 < length y \<and> segment_crossing x y i = Some (p, i)"
  then show "(p, i) \<in> set (crossings_spec x y)"
    by (auto simp: crossings_spec_def map_filter_mem segments_mem)
qed


subsection \<open>Where a contribution lies\<close>

text \<open>
  With exact arithmetic the interpolated point of a segment with \<open>xi \<le> xj\<close> lies
  between its two ends, since \<open>- yi / (yj - yi)\<close> is a fraction between 0 and 1.
\<close>

lemma interp_between:
  fixes xi xj yi yj :: real
  assumes "xi \<le> xj" "yi * yj < 0"
  shows "xi \<le> xi + (xj - xi) * (- yi) / (yj - yi)"
    and "xi + (xj - xi) * (- yi) / (yj - yi) \<le> xj"
proof -
  define t where "t = (- yi) / (yj - yi)"
  have t: "0 \<le> t \<and> t \<le> 1"
    using assms(2) by (auto simp: t_def mult_less_0_iff field_simps)
  have eq: "(xj - xi) * (- yi) / (yj - yi) = (xj - xi) * t"
    by (simp add: t_def)
  have d: "0 \<le> xj - xi" using assms(1) by simp
  have "0 \<le> (xj - xi) * t" using d t by simp
  then show "xi \<le> xi + (xj - xi) * (- yi) / (yj - yi)" using eq by simp
  have "(xj - xi) * t \<le> (xj - xi) * 1"
    using d t by (intro mult_left_mono) auto
  then show "xi + (xj - xi) * (- yi) / (yj - yi) \<le> xj" using eq by simp
qed

lemma segment_crossing_between:
  assumes "sorted x" "i + 1 < length x" "segment_crossing x y i = Some c"
  shows "x ! i \<le> fst c \<and> fst c \<le> x ! (i + 1)"
proof -
  have le: "x ! i \<le> x ! (i + 1)"
    using assms(1,2) by (simp add: sorted_nth_mono)
  show ?thesis
    using assms(3) le interp_between [of "x ! i" "x ! (i + 1)" "y ! i" "y ! (i + 1)"]
    by (auto simp: segment_crossing_def split: if_splits)
qed

lemma map_filter_sorted:
  assumes "sorted x" "sorted_wrt (<) idx" "\<And>i. i \<in> set idx \<Longrightarrow> i + 1 < length x"
  shows "sorted (map fst (List.map_filter (segment_crossing x y) idx))"
  using assms(2,3)
proof (induction idx)
  case Nil
  then show ?case by simp
next
  case (Cons i rest)
  have IH: "sorted (map fst (List.map_filter (segment_crossing x y) rest))"
    using Cons by simp
  show ?case
  proof (cases "segment_crossing x y i")
    case None
    then show ?thesis using IH by simp
  next
    case (Some c)
    have i: "i + 1 < length x" using Cons.prems(2) by simp
    have c: "fst c \<le> x ! (i + 1)"
      using segment_crossing_between [OF assms(1) i Some] by simp
    have "fst c \<le> fst c'" if "c' \<in> set (List.map_filter (segment_crossing x y) rest)" for c'
    proof -
      from that obtain j where j: "j \<in> set rest" "segment_crossing x y j = Some c'"
        by (auto simp: map_filter_mem)
      have ij: "i + 1 \<le> j" using Cons.prems(1) j(1) by auto
      have jl: "j + 1 < length x" using Cons.prems(2) j(1) by simp
      have "x ! (i + 1) \<le> x ! j"
        using assms(1) ij jl by (simp add: sorted_nth_mono)
      moreover have "x ! j \<le> fst c'"
        using segment_crossing_between [OF assms(1) jl j(2)] by simp
      ultimately show ?thesis using c by simp
    qed
    then show ?thesis using IH Some by auto
  qed
qed

section \<open>The scan over any arithmetic\<close>

lemma zero_crossings_loop_in_eq:
  "(\<And>i. i \<in> set idx \<Longrightarrow> i + 1 < length y \<and> i + 1 < length x) \<Longrightarrow>
   zero_crossings_loop_in A x y idx out =
     Inr (out @ List.map_filter (segment_crossing_in A x y) idx)"
proof (induction idx arbitrary: out)
  case Nil
  then show ?case by simp
next
  case (Cons i rest)
  have i: "i + 1 < length y" "i + 1 < length x" using Cons.prems by auto
  have rest: "\<And>j. j \<in> set rest \<Longrightarrow> j + 1 < length y \<and> j + 1 < length x"
    using Cons.prems by auto
  show ?case
    using i Cons.IH [OF rest]
    by (simp add: load2_in_range segment_crossing_in_def)
qed

lemma series_all_in:
  "length x = length y \<Longrightarrow> zero_crossings_linear_interp_in A x y = Inr (crossings_in A x y)"
  using zero_crossings_loop_in_eq [of "segments y" y x A "[]"]
  by (simp add: zero_crossings_linear_interp_in_def range_py_segments crossings_in_def
      segments_mem)

lemma segment_crossing_in_index: "segment_crossing_in A x y i = Some c \<Longrightarrow> snd c = i"
  by (auto simp: segment_crossing_in_def split: if_splits)

lemma crossings_in_mem:
  "(p, i) \<in> set (crossings_in A x y) \<longleftrightarrow>
     i + 1 < length y \<and> segment_crossing_in A x y i = Some (p, i)"
proof
  assume "(p, i) \<in> set (crossings_in A x y)"
  then obtain j where j: "j + 1 < length y" "segment_crossing_in A x y j = Some (p, i)"
    by (auto simp: crossings_in_def map_filter_mem segments_mem)
  from segment_crossing_in_index [OF j(2)] have "j = i" by simp
  with j show "i + 1 < length y \<and> segment_crossing_in A x y i = Some (p, i)" by simp
next
  assume "i + 1 < length y \<and> segment_crossing_in A x y i = Some (p, i)"
  then show "(p, i) \<in> set (crossings_in A x y)"
    by (auto simp: crossings_in_def map_filter_mem segments_mem)
qed

lemma map_snd_map_filter_in:
  "map snd (List.map_filter (segment_crossing_in A x y) idx) =
     filter (\<lambda>i. segment_crossing_in A x y i \<noteq> None) idx"
  by (induction idx) (auto simp: segment_crossing_in_index split: option.splits)

lemma crossings_in_indices:
  "map snd (crossings_in A x y) =
     filter (\<lambda>i. segment_crossing_in A x y i \<noteq> None) (segments y)"
  by (simp add: crossings_in_def map_snd_map_filter_in)

lemma crossings_in_scan_order: "sorted_wrt (<) (map snd (crossings_in A x y))"
  by (simp add: crossings_in_indices segments_def sorted_wrt_filter)

lemma crossings_in_distinct: "distinct (map snd (crossings_in A x y))"
  by (simp add: crossings_in_indices segments_def)

lemma exact_arith_simps:
  "f_eq0 exact_arith v \<longleftrightarrow> v = 0" "f_lt0 exact_arith v \<longleftrightarrow> v < 0"
  "f_mul exact_arith a b = a * b" "f_sub exact_arith a b = a - b"
  "f_neg exact_arith a = - a" "f_div exact_arith a b = a / b"
  "f_add exact_arith a b = a + b"
  by (simp_all add: exact_arith_def)

text \<open>With exact arithmetic the parametrised scan is the scan given first.\<close>

lemma zero_crossings_loop_exact:
  "zero_crossings_loop_in exact_arith x y idx out = zero_crossings_loop x y idx out"
proof (induction idx arbitrary: out)
  case Nil
  then show ?case by simp
next
  case (Cons i rest)
  then show ?case
    by (simp add: exact_arith_simps interp_product_neg interp_in_def
        split: sum.splits prod.splits)
qed

lemma zero_crossings_linear_interp_exact:
  "zero_crossings_linear_interp_in exact_arith x y = zero_crossings_linear_interp x y"
  by (simp add: zero_crossings_linear_interp_in_def zero_crossings_linear_interp_def
      zero_crossings_loop_exact)

subsection \<open>The binary64 instance\<close>

text \<open>The exponent found by \<open>ilog2\<close> brackets its argument.\<close>

lemma ilog2_bounds_ge1:
  assumes "1 \<le> q"
  shows "2 ^ nat (ilog2 q) \<le> q \<and> q < 2 ^ nat (ilog2 q + 1) \<and> 0 \<le> ilog2 q"
proof -
  let ?n = "\<lfloor>q\<rfloor>"
  have n: "0 < ?n" using assms by linarith
  have b: "1 \<le> bitlen ?n" using n by (auto simp: bitlen_alt_def)
  have e: "ilog2 q = bitlen ?n - 1" using assms by (simp add: ilog2_def)
  from bitlen_bounds [OF n]
  have lo: "(2::int) ^ nat (bitlen ?n - 1) \<le> ?n" and hi: "?n < 2 ^ nat (bitlen ?n)" by auto
  have "(2::real) ^ nat (bitlen ?n - 1) = of_int ((2::int) ^ nat (bitlen ?n - 1))" by simp
  also have "\<dots> \<le> of_int ?n" using lo by (simp only: of_int_le_iff)
  also have "\<dots> \<le> q" by simp
  finally have 1: "2 ^ nat (ilog2 q) \<le> q" by (simp add: e)
  have "?n + 1 \<le> 2 ^ nat (bitlen ?n)" using hi by simp
  then have "of_int (?n + 1) \<le> (of_int ((2::int) ^ nat (bitlen ?n)) :: real)"
    by (simp only: of_int_le_iff)
  then have "of_int ?n + 1 \<le> (2::real) ^ nat (bitlen ?n)" by simp
  moreover have "q < of_int ?n + 1" by linarith
  ultimately have "q < 2 ^ nat (bitlen ?n)" by linarith
  then have 2: "q < 2 ^ nat (ilog2 q + 1)" by (simp add: e)
  show ?thesis using 1 2 b e by simp
qed

lemma ilog2_bounds_lt1:
  assumes "0 < q" "q < 1"
  shows "1 / 2 ^ nat (- ilog2 q) \<le> q \<and> q < 2 / 2 ^ nat (- ilog2 q) \<and> ilog2 q < 0"
proof -
  let ?t = "1 / q"
  let ?m = "\<lceil>?t\<rceil> - 1"
  have t: "1 < ?t" using assms by simp
  have m: "0 < ?m" using t by linarith
  have mt: "of_int ?m < ?t" by linarith
  have tm: "?t \<le> of_int ?m + 1" by linarith
  have b: "1 \<le> bitlen ?m" using m by (auto simp: bitlen_alt_def)
  have e: "ilog2 q = - bitlen ?m" using assms by (simp add: ilog2_def)
  from bitlen_bounds [OF m]
  have lo: "(2::int) ^ nat (bitlen ?m - 1) \<le> ?m" and hi: "?m < 2 ^ nat (bitlen ?m)" by auto
  have "?m + 1 \<le> 2 ^ nat (bitlen ?m)" using hi by simp
  then have "of_int (?m + 1) \<le> (of_int ((2::int) ^ nat (bitlen ?m)) :: real)"
    by (simp only: of_int_le_iff)
  then have "of_int ?m + 1 \<le> (2::real) ^ nat (bitlen ?m)"
    by (simp only: of_int_add of_int_1 of_int_power of_int_numeral)
  then have "?t \<le> 2 ^ nat (bitlen ?m)" using tm by linarith
  then have 1: "1 / 2 ^ nat (bitlen ?m) \<le> q"
    using assms(1) by (simp add: field_simps)
  have "(of_int ((2::int) ^ nat (bitlen ?m - 1)) :: real) \<le> of_int ?m"
    using lo by (simp only: of_int_le_iff)
  then have "(2::real) ^ nat (bitlen ?m - 1) \<le> of_int ?m"
    by (simp only: of_int_power of_int_numeral)
  then have "(2::real) ^ nat (bitlen ?m - 1) < ?t" using mt by linarith
  moreover have "(2::real) ^ nat (bitlen ?m) = 2 * 2 ^ nat (bitlen ?m - 1)"
    using b by (metis Suc_nat_eq_nat_zadd1 diff_add_cancel diff_ge_0_iff_ge power_Suc add.commute)
  ultimately have 2: "q < 2 / 2 ^ nat (bitlen ?m)"
    using assms(1) by (simp add: field_simps)
  show ?thesis using 1 2 b e by simp
qed

text \<open>
  In binary64 the product of \<open>2^(-540)\<close> and \<open>-2^(-540)\<close> underflows to \<open>-0\<close>,
  which is not below zero: the scan records nothing for such a segment although the two
  values have opposite signs.
\<close>

lemma underflow_example:
  "f64_mul (Num (1 / 2 ^ 540)) (Num (- 1 / 2 ^ 540)) = Zero True
   \<and> zero_crossings_linear_interp_in binary64 [Num 1, Num 2]
        [Num (1 / 2 ^ 540), Num (- 1 / 2 ^ 540)] = Inr []"
  by (simp add: zero_crossings_linear_interp_in_def range_py_def upt_rec load2_def getitem_def
      binary64_def interp_in_def f64_sub_def round64_def rmag_def ilog2_def compute_bitlen
      Let_def)

section \<open>Every crossing of a series\<close>

text \<open>
  C1. On a series (two arrays of one length), for every arithmetic \<open>A\<close> and so for
  float64, the scan of \<^verbatim>\<open>zero_crossings_linear_interp\<close> returns a list \<open>out\<close> of pairs
  (location, segment index) such that, for every segment index \<open>i\<close> from 0 to
  \<open>len - 2\<close>: \<open>(p, i)\<close> is recorded exactly when \<open>y[i] == 0\<close> and \<open>p = x[i]\<close>, or
  \<open>y[i] != 0\<close>, \<open>y[i] * y[i+1] < 0\<close> and \<open>p\<close> is the interpolated point
  \<open>x[i] + (x[i+1] - x[i]) * (-y[i]) / (y[i+1] - y[i])\<close>, the product, the comparison
  and the interpolation being those of \<open>A\<close>. A segment whose first value is nonzero
  and whose product is not negative (two nonzero values of the same sign among them)
  records nothing, and no segment index occurs twice.
\<close>

theorem all_mode_reference:
  assumes "length x = length y"
  shows "\<exists>out. zero_crossings_linear_interp_in A x y = Inr out
     \<and> (\<forall>p i. (p, i) \<in> set out \<longleftrightarrow>
           i + 1 < length y \<and>
           (f_eq0 A (y ! i) \<and> p = x ! i \<or>
            \<not> f_eq0 A (y ! i) \<and> f_lt0 A (f_mul A (y ! i) (y ! (i + 1))) \<and>
              p = f_add A (x ! i)
                    (f_div A (f_mul A (f_sub A (x ! (i + 1)) (x ! i)) (f_neg A (y ! i)))
                       (f_sub A (y ! (i + 1)) (y ! i)))))
     \<and> (\<forall>i. i + 1 < length y \<and> \<not> f_eq0 A (y ! i)
              \<and> \<not> f_lt0 A (f_mul A (y ! i) (y ! (i + 1))) \<longrightarrow> i \<notin> snd ` set out)
     \<and> distinct (map snd out)"
proof -
  let ?out = "crossings_in A x y"
  have run: "zero_crossings_linear_interp_in A x y = Inr ?out"
    using assms by (rule series_all_in)
  have mem: "\<forall>p i. (p, i) \<in> set ?out \<longleftrightarrow>
           i + 1 < length y \<and>
           (f_eq0 A (y ! i) \<and> p = x ! i \<or>
            \<not> f_eq0 A (y ! i) \<and> f_lt0 A (f_mul A (y ! i) (y ! (i + 1))) \<and>
              p = f_add A (x ! i)
                    (f_div A (f_mul A (f_sub A (x ! (i + 1)) (x ! i)) (f_neg A (y ! i)))
                       (f_sub A (y ! (i + 1)) (y ! i))))"
    by (auto simp: crossings_in_mem segment_crossing_in_def interp_in_def)
  have same: "\<forall>i. i + 1 < length y \<and> \<not> f_eq0 A (y ! i)
              \<and> \<not> f_lt0 A (f_mul A (y ! i) (y ! (i + 1))) \<longrightarrow> i \<notin> snd ` set ?out"
  proof (intro allI impI notI)
    fix i
    assume no: "i + 1 < length y \<and> \<not> f_eq0 A (y ! i)
              \<and> \<not> f_lt0 A (f_mul A (y ! i) (y ! (i + 1)))"
    assume "i \<in> snd ` set ?out"
    then obtain p where "(p, i) \<in> set ?out" by force
    then have "f_eq0 A (y ! i) \<or> f_lt0 A (f_mul A (y ! i) (y ! (i + 1)))"
      using mem by blast
    with no show False by auto
  qed
  show ?thesis
    using run mem same crossings_in_distinct [of A x y] by blast
qed

theorem all_mode_reference_witness:
  "length [0, 1, 2, 3 :: real] = length [- 2, 2, - 2, 2 :: real] \<and>
   (\<exists>out. zero_crossings_linear_interp_in exact_arith [0, 1, 2, 3] [- 2, 2, - 2, 2] = Inr out
     \<and> (1 / 2, 0) \<in> set out \<and> distinct (map snd out))"
proof -
  have len: "length [0, 1, 2, 3 :: real] = length [- 2, 2, - 2, 2 :: real]" by simp
  from all_mode_reference [OF len, of exact_arith] obtain out where
    run: "zero_crossings_linear_interp_in exact_arith [0, 1, 2, 3] [- 2, 2, - 2, 2] = Inr out"
    and mem: "\<forall>p i. (p, i) \<in> set out \<longleftrightarrow>
           i + 1 < length [- 2, 2, - 2, 2 :: real] \<and>
           (f_eq0 exact_arith ([- 2, 2, - 2, 2] ! i) \<and> p = [0, 1, 2, 3] ! i \<or>
            \<not> f_eq0 exact_arith ([- 2, 2, - 2, 2] ! i) \<and>
            f_lt0 exact_arith (f_mul exact_arith ([- 2, 2, - 2, 2] ! i) ([- 2, 2, - 2, 2] ! (i + 1))) \<and>
              p = f_add exact_arith ([0, 1, 2, 3] ! i)
                    (f_div exact_arith
                       (f_mul exact_arith
                          (f_sub exact_arith ([0, 1, 2, 3] ! (i + 1)) ([0, 1, 2, 3] ! i))
                          (f_neg exact_arith ([- 2, 2, - 2, 2] ! i)))
                       (f_sub exact_arith ([- 2, 2, - 2, 2] ! (i + 1)) ([- 2, 2, - 2, 2] ! i))))"
    and dist: "distinct (map snd out)"
    by blast
  have "(1 / 2, 0) \<in> set out"
    using mem by (simp add: exact_arith_simps)
  with len run dist show ?thesis by blast
qed


text \<open>
  C4. The series \<open>[(0,-1), (1,0), (2,1)]\<close>: the scan returns the single crossing at
  \<open>x = 1\<close> with index 1, the sample that is exactly zero. Segment 0 (values \<open>-1, 0\<close>)
  has product zero and records nothing; segment 1 starts at the zero sample, takes the
  exact-zero branch and is not interpolated.
\<close>

theorem exact_zero_boundary:
  "zero_crossings_linear_interp [0, 1, 2] [- 1, 0, 1] = Inr [(1, 1)]
   \<and> segment_crossing [0, 1, 2] [- 1, 0, 1] 0 = None
   \<and> [- 1, 0, 1 :: real] ! 1 = 0"
  by (simp add: zero_crossings_linear_interp_def range_py_def upt_rec load2_def getitem_def
      segment_crossing_def)

section \<open>First and last crossing against the full scan\<close>

text \<open>
  C2. On a series, \<^verbatim>\<open>first_zero_crossing_linear\<close> (\<^verbatim>\<open>make_fig23.py\<close>) returns the
  location of the first element of the list that \<^verbatim>\<open>zero_crossings_linear_interp\<close>
  returns on the same series, and it returns \<open>None\<close> exactly when that list is empty.
\<close>

theorem first_is_head_of_all:
  assumes "length x = length y"
  shows "\<exists>out. zero_crossings_linear_interp x y = Inr out
     \<and> first_zero_crossing_linear x y = Inr (case out of [] \<Rightarrow> None | c # _ \<Rightarrow> Some (fst c))
     \<and> (first_zero_crossing_linear x y = Inr None \<longleftrightarrow> out = [])"
proof -
  let ?out = "crossings_spec x y"
  have first: "first_zero_crossing_linear x y =
      Inr (case ?out of [] \<Rightarrow> None | c # _ \<Rightarrow> Some (fst c))"
    using assms by (rule series_first)
  then have "first_zero_crossing_linear x y = Inr None \<longleftrightarrow> ?out = []"
    by (simp split: list.splits)
  with first series_all [OF assms] show ?thesis by blast
qed

theorem first_is_head_of_all_witness:
  "length [0, 1, 2, 3 :: real] = length [- 2, 2, - 2, 2 :: real] \<and>
   zero_crossings_linear_interp [0, 1, 2, 3] [- 2, 2, - 2, 2]
     = Inr [(1 / 2, 0), (3 / 2, 1), (5 / 2, 2)] \<and>
   first_zero_crossing_linear [0, 1, 2, 3] [- 2, 2, - 2, 2] = Inr (Some (1 / 2))"
proof -
  have len: "length [0, 1, 2, 3 :: real] = length [- 2, 2, - 2, 2 :: real]" by simp
  have run: "zero_crossings_linear_interp [0, 1, 2, 3] [- 2, 2, - 2, 2]
     = Inr [(1 / 2, 0), (3 / 2, 1), (5 / 2, 2)]"
    by (simp add: zero_crossings_linear_interp_def range_py_def upt_rec load2_def getitem_def
        interp_def fdiv_def)
  from first_is_head_of_all [OF len] run
  have "first_zero_crossing_linear [0, 1, 2, 3] [- 2, 2, - 2, 2] = Inr (Some (1 / 2))"
    by auto
  with len run show ?thesis by simp
qed

text \<open>
  C3. On a series, \<^verbatim>\<open>last_zero_crossing\<close> (\<^verbatim>\<open>make_fig7.py\<close>), which overwrites its
  running result at every hit, returns the location of the last element of the list
  that \<^verbatim>\<open>zero_crossings_linear_interp\<close> returns on the same series, and it returns
  \<open>None\<close> exactly when that list is empty.
\<close>

theorem last_is_last_of_all:
  assumes "length x = length y"
  shows "\<exists>out. zero_crossings_linear_interp x y = Inr out
     \<and> last_zero_crossing x y = Inr (if out = [] then None else Some (fst (last out)))
     \<and> (last_zero_crossing x y = Inr None \<longleftrightarrow> out = [])"
proof -
  let ?out = "crossings_spec x y"
  have "last_zero_crossing x y =
      Inr (case ?out of [] \<Rightarrow> None | c # cs \<Rightarrow> Some (fst (last (c # cs))))"
    using assms by (rule series_last)
  then have lst: "last_zero_crossing x y = Inr (if ?out = [] then None else Some (fst (last ?out)))"
    by (simp split: list.splits)
  then have "last_zero_crossing x y = Inr None \<longleftrightarrow> ?out = []"
    by simp
  with lst series_all [OF assms] show ?thesis by blast
qed

theorem last_is_last_of_all_witness:
  "length [0, 1, 2, 3 :: real] = length [- 2, 2, - 2, 2 :: real] \<and>
   zero_crossings_linear_interp [0, 1, 2, 3] [- 2, 2, - 2, 2]
     = Inr [(1 / 2, 0), (3 / 2, 1), (5 / 2, 2)] \<and>
   last_zero_crossing [0, 1, 2, 3] [- 2, 2, - 2, 2] = Inr (Some (5 / 2))"
proof -
  have len: "length [0, 1, 2, 3 :: real] = length [- 2, 2, - 2, 2 :: real]" by simp
  have run: "zero_crossings_linear_interp [0, 1, 2, 3] [- 2, 2, - 2, 2]
     = Inr [(1 / 2, 0), (3 / 2, 1), (5 / 2, 2)]"
    by (simp add: zero_crossings_linear_interp_def range_py_def upt_rec load2_def getitem_def
        interp_def fdiv_def)
  from last_is_last_of_all [OF len] run
  have "last_zero_crossing [0, 1, 2, 3] [- 2, 2, - 2, 2] = Inr (Some (5 / 2))"
    by auto
  with len run show ?thesis by simp
qed

section \<open>Order of the crossings\<close>

text \<open>
  In binary64 the interpolated point of a segment can land one unit in the last place
  beyond the segment's right end. On \<open>x = [0.1, 0.5, 1.0]\<close> (0.1 being the double
  \<open>3602879701896397 / 2^55\<close>) and \<open>y = [-3, 2^(-60), -3]\<close> the scan returns
  \<open>0.5 + 2^(-53)\<close> for segment 0 and then \<open>0.5\<close> for segment 1: the input is sorted,
  the locations descend.
\<close>

theorem ascending_output_counterexample:
  "sorted [3602879701896397 / 2 ^ 55, 1 / 2, 1 :: real]
   \<and> zero_crossings_linear_interp_in binary64
        [Num (3602879701896397 / 2 ^ 55), Num (1 / 2), Num 1]
        [Num (- 3), Num (1 / 2 ^ 60), Num (- 3)]
      = Inr [(Num (4503599627370497 / 2 ^ 53), 0), (Num (1 / 2), 1)]
   \<and> (1 / 2 :: real) < 4503599627370497 / 2 ^ 53"
  by (simp add: zero_crossings_linear_interp_in_def range_py_def upt_rec load2_def getitem_def
      binary64_def interp_in_def f64_sub_def round64_def rmag_def ilog2_def compute_bitlen
      Let_def)

text \<open>
  C5, as the code has it. On a series the crossings are returned in scan order: their
  segment indices ascend strictly, for every arithmetic and so for float64. When the
  \<open>x\<close> values are in ascending order and the interpolation is evaluated exactly, each
  location lies within its segment and the locations are in ascending (non-decreasing)
  order as well; under the rounding of float64 they need not be.
\<close>

theorem scan_order_output:
  assumes "length x = length y" and "length xr = length yr" and "sorted xr"
  shows "(\<exists>out. zero_crossings_linear_interp_in A x y = Inr out
            \<and> sorted_wrt (<) (map snd out))
       \<and> (\<exists>out. zero_crossings_linear_interp_in exact_arith xr yr = Inr out
            \<and> sorted (map fst out))"
proof -
  have "sorted (map fst (crossings_spec xr yr))"
    unfolding crossings_spec_def
  proof (rule map_filter_sorted [OF assms(3)])
    show "sorted_wrt (<) (segments yr)" by (simp add: segments_def)
    show "i + 1 < length xr" if "i \<in> set (segments yr)" for i
      using that assms(2) by (simp add: segments_mem)
  qed
  then have exact: "\<exists>out. zero_crossings_linear_interp_in exact_arith xr yr = Inr out
            \<and> sorted (map fst out)"
    using series_all [OF assms(2)] by (simp add: zero_crossings_linear_interp_exact)
  have "\<exists>out. zero_crossings_linear_interp_in A x y = Inr out \<and> sorted_wrt (<) (map snd out)"
    using series_all_in [OF assms(1), of A] crossings_in_scan_order [of A x y] by simp
  with exact show ?thesis by blast
qed

theorem scan_order_output_witness:
  "length [Num (1 / 2), Num 1] = length [Num (- 1), Num 2]
   \<and> length [0, 1, 2, 3 :: real] = length [- 2, 2, - 2, 2 :: real] \<and> sorted [0, 1, 2, 3 :: real]
   \<and> (\<exists>out. zero_crossings_linear_interp_in binary64 [Num (1 / 2), Num 1] [Num (- 1), Num 2]
              = Inr out \<and> sorted_wrt (<) (map snd out))
   \<and> (\<exists>out. zero_crossings_linear_interp_in exact_arith [0, 1, 2, 3] [- 2, 2, - 2, 2] = Inr out
              \<and> sorted (map fst out))"
proof -
  have l1: "length [Num (1 / 2), Num 1] = length [Num (- 1), Num 2]" by simp
  have l2: "length [0, 1, 2, 3 :: real] = length [- 2, 2, - 2, 2 :: real]" by simp
  have srt: "sorted [0, 1, 2, 3 :: real]" by simp
  from scan_order_output [OF l1 l2 srt, of binary64] l1 l2 srt show ?thesis by blast
qed


section \<open>Samples that are exactly zero\<close>

text \<open>
  The scan visits the indices \<open>0 .. len - 2\<close> only: the final sample is the right end
  of the last segment and never the left end of one. On \<open>x = [0, 1]\<close>,
  \<open>y = [1, 0]\<close> the final sample is exactly zero and the scan returns no crossing.
\<close>

theorem final_zero_sample_counterexample:
  "length [0, 1 :: real] = length [1, 0 :: real] \<and> (1::nat) < length [1, 0 :: real]
   \<and> [1, 0 :: real] ! 1 = 0
   \<and> zero_crossings_linear_interp [0, 1] [1, 0] = Inr []"
  by (simp add: zero_crossings_linear_interp_def range_py_def upt_rec load2_def getitem_def)

text \<open>
  C6, as the code has it. On a series, every sample \<open>y[i] = 0\<close> other than the
  final one (\<open>i \<le> len - 2\<close>) is reported by \<^verbatim>\<open>zero_crossings_linear_interp\<close> as a
  crossing at \<open>x[i]\<close> with segment index \<open>i\<close>.
\<close>

theorem exact_zero_reported:
  assumes "length x = length y" "i + 1 < length y" "y ! i = 0"
  shows "\<exists>out. zero_crossings_linear_interp x y = Inr out \<and> (x ! i, i) \<in> set out"
proof -
  have "(x ! i, i) \<in> set (crossings_spec x y)"
    using assms(2,3) by (simp add: crossings_spec_mem segment_crossing_def)
  with series_all [OF assms(1)] show ?thesis by blast
qed

theorem exact_zero_reported_witness:
  "length [0, 1, 2 :: real] = length [- 1, 0, 1 :: real] \<and> (1::nat) + 1 < length [- 1, 0, 1 :: real]
   \<and> [- 1, 0, 1 :: real] ! 1 = 0
   \<and> (\<exists>out. zero_crossings_linear_interp [0, 1, 2] [- 1, 0, 1] = Inr out \<and> (1, 1) \<in> set out)"
proof -
  have len: "length [0, 1, 2 :: real] = length [- 1, 0, 1 :: real]" by simp
  have i: "(1::nat) + 1 < length [- 1, 0, 1 :: real]" by simp
  have z: "[- 1, 0, 1 :: real] ! 1 = 0" by simp
  from exact_zero_reported [OF len i z] len i z show ?thesis by simp
qed

section \<open>Absent results\<close>

text \<open>
  On \<open>x = [0, 1]\<close>, \<open>y = [0, 1]\<close> the only pair of consecutive samples is not a sign
  change (its first value is zero), yet both \<^verbatim>\<open>first_zero_crossing_linear\<close> and
  \<^verbatim>\<open>last_zero_crossing\<close> return the location 0 of the exact-zero sample.
\<close>

theorem no_sign_change_counterexample:
  "length [0, 1 :: real] = length [0, 1 :: real]
   \<and> \<not> sign_change ([0, 1] ! 0) ([0, 1] ! 1)
   \<and> first_zero_crossing_linear [0, 1] [0, 1] = Inr (Some 0)
   \<and> last_zero_crossing [0, 1] [0, 1] = Inr (Some 0)"
  by (simp add: sign_change_def first_zero_crossing_linear_def last_zero_crossing_def
      asarray_float_def range_py_def upt_rec load2_def getitem_def)

lemma map_filter_empty:
  "List.map_filter f idx = [] \<longleftrightarrow> (\<forall>i \<in> set idx. f i = None)"
  by (induction idx) (auto split: option.splits)

lemma segment_crossing_none:
  "segment_crossing x y i = None \<longleftrightarrow>
     y ! i \<noteq> 0 \<and> \<not> sign_change (y ! i) (y ! (i + 1))"
  by (simp add: segment_crossing_def sign_change_iff_product)

lemma crossings_spec_empty:
  "crossings_spec x y = [] \<longleftrightarrow>
     (\<forall>i. i + 1 < length y \<longrightarrow> y ! i \<noteq> 0 \<and> \<not> sign_change (y ! i) (y ! (i + 1)))"
  by (simp add: crossings_spec_def map_filter_empty segments_mem segment_crossing_none Ball_def)

text \<open>
  C7, as the code has it. On a series in which no pair of consecutive samples is a sign
  change and no sample other than the final one is exactly zero,
  \<^verbatim>\<open>first_zero_crossing_linear\<close> and \<^verbatim>\<open>last_zero_crossing\<close> return \<open>None\<close>. The absent
  result is an ordinary return value (\<open>Inr None\<close>), not an error.
\<close>

theorem absent_when_no_hit:
  assumes "length x = length y"
    and "\<forall>i. i + 1 < length y \<longrightarrow> y ! i \<noteq> 0 \<and> \<not> sign_change (y ! i) (y ! (i + 1))"
  shows "first_zero_crossing_linear x y = Inr None \<and> last_zero_crossing x y = Inr None"
proof -
  have empty: "crossings_spec x y = []"
    using assms(2) by (simp add: crossings_spec_empty)
  show ?thesis
    using series_first [OF assms(1)] series_last [OF assms(1)] empty by simp
qed

theorem absent_when_no_hit_witness:
  "length [0, 1, 2 :: real] = length [1, 2, 3 :: real]
   \<and> [1, 2, 3 :: real] ! 0 \<noteq> 0 \<and> \<not> sign_change ([1, 2, 3] ! 0) ([1, 2, 3] ! 1)
   \<and> [1, 2, 3 :: real] ! 1 \<noteq> 0 \<and> \<not> sign_change ([1, 2, 3] ! 1) ([1, 2, 3] ! 2)
   \<and> first_zero_crossing_linear [0, 1, 2] [1, 2, 3] = Inr None
   \<and> last_zero_crossing [0, 1, 2] [1, 2, 3] = Inr None"
proof -
  have len: "length [0, 1, 2 :: real] = length [1, 2, 3 :: real]" by simp
  have none: "\<forall>i. i + 1 < length [1, 2, 3 :: real] \<longrightarrow>
      [1, 2, 3 :: real] ! i \<noteq> 0 \<and> \<not> sign_change ([1, 2, 3] ! i) ([1, 2, 3] ! (i + 1))"
    by (simp add: sign_change_def less_Suc_eq nth_Cons')
  from absent_when_no_hit [OF len none] len show ?thesis
    by (simp add: sign_change_def)
qed


section \<open>Short series\<close>

lemma range_py_short: "length y \<le> 1 \<Longrightarrow> range_py (int (length y) - 1) = []"
  by (simp add: range_py_def)

text \<open>
  C8. When \<open>y\<close> has length 0 or 1, \<^verbatim>\<open>range(len(y) - 1)\<close> is empty: the loop body
  never runs, no array is read, and every scan returns the empty list or \<open>None\<close>
  without an error, whatever \<open>x\<close> is.
\<close>

theorem short_series:
  assumes "length y \<le> 1"
  shows "zero_crossings_linear_interp x y = Inr []
     \<and> first_zero_crossing_linear x y = Inr None
     \<and> first_zero_crossing_linear_AE_RMST x y = Inr None
     \<and> first_zero_crossing x y = Inr None
     \<and> zc_closeup x y = Inr None
     \<and> last_zero_crossing x y = Inr None"
  using range_py_short [OF assms]
  by (simp add: zero_crossings_linear_interp_def first_zero_crossing_linear_def
      first_zero_crossing_linear_AE_RMST_def first_zero_crossing_def zc_closeup_def
      last_zero_crossing_def asarray_float_def)

theorem short_series_witness:
  "length [7 :: real] \<le> 1
     \<and> zero_crossings_linear_interp [3] [7] = Inr []
     \<and> first_zero_crossing_linear [3] [7] = Inr None
     \<and> first_zero_crossing_linear_AE_RMST [3] [7] = Inr None
     \<and> first_zero_crossing [3] [7] = Inr None
     \<and> zc_closeup [3] [7] = Inr None
     \<and> last_zero_crossing [3] [7] = Inr None"
proof -
  have short: "length [7 :: real] \<le> 1" by simp
  from short_series [OF short, of "[3]"] short show ?thesis by simp
qed

section \<open>The division\<close>

lemma load2_no_division_error: "load2 a i \<noteq> Inl ZeroDivisionError"
  by (simp add: load2_def getitem_def)

lemma zero_crossings_loop_no_division_error:
  "zero_crossings_loop x y idx out \<noteq> Inl ZeroDivisionError"
proof (induction idx arbitrary: out)
  case Nil
  then show ?case by simp
next
  case (Cons i rest)
  then show ?case
    using load2_no_division_error [of y i] load2_no_division_error [of x i]
    by (auto simp: interp_product_neg split: sum.splits prod.splits)
qed

lemma first_zero_crossing_linear_loop_no_division_error:
  "first_zero_crossing_linear_loop x y idx \<noteq> Inl ZeroDivisionError"
proof (induction idx)
  case Nil
  then show ?case by simp
next
  case (Cons i rest)
  then show ?case
    using load2_no_division_error [of y i] load2_no_division_error [of x i]
    by (auto simp: interp_product_neg split: sum.splits prod.splits)
qed

lemma last_zero_crossing_loop_no_division_error:
  "last_zero_crossing_loop x y idx zc \<noteq> Inl ZeroDivisionError"
proof (induction idx arbitrary: zc)
  case Nil
  then show ?case by simp
next
  case (Cons i rest)
  then show ?case
    using load2_no_division_error [of y i] load2_no_division_error [of x i]
    by (auto simp: interp_product_neg split: sum.splits prod.splits)
qed

text \<open>
  C9. The division by \<open>yj - yi\<close> stands under the branch \<open>yi * yj < 0\<close> only. Under
  that condition the divisor is not zero and the interpolation yields a value; and for
  every pair of arrays, of any lengths, no scan ends in the division error.
\<close>

theorem division_safe:
  "(yi * yj < 0 \<longrightarrow>
      yj - yi \<noteq> 0 \<and> interp xi xj yi yj = Inr (xi + (xj - xi) * (- yi) / (yj - yi)))
   \<and> zero_crossings_linear_interp x y \<noteq> Inl ZeroDivisionError
   \<and> first_zero_crossing_linear x y \<noteq> Inl ZeroDivisionError
   \<and> last_zero_crossing x y \<noteq> Inl ZeroDivisionError"
  using product_neg_divisor [of yi yj] interp_product_neg [of yi yj xi xj]
  by (simp add: zero_crossings_linear_interp_def first_zero_crossing_linear_def
      last_zero_crossing_def asarray_float_def zero_crossings_loop_no_division_error
      first_zero_crossing_linear_loop_no_division_error
      last_zero_crossing_loop_no_division_error)

theorem division_safe_witness:
  "(- 2 :: real) * 2 < 0 \<and> (2 :: real) - (- 2) \<noteq> 0
   \<and> interp 0 1 (- 2) 2 = Inr (1 / 2)
   \<and> zero_crossings_linear_interp [0, 1] [- 2, 2] \<noteq> Inl ZeroDivisionError
   \<and> first_zero_crossing_linear [0, 1] [- 2, 2] \<noteq> Inl ZeroDivisionError
   \<and> last_zero_crossing [0, 1] [- 2, 2] \<noteq> Inl ZeroDivisionError"
  using division_safe [of "- 2" 2 0 1 "[0, 1]" "[- 2, 2]"] by simp

section \<open>The copies of the first-crossing scan\<close>

lemma AE_RMST_loop_eq:
  "first_zero_crossing_linear_AE_RMST_loop x y idx = first_zero_crossing_linear_loop x y idx"
  by (induction idx) (simp_all split: sum.splits prod.splits)

lemma first_zero_crossing_loop_eq:
  "first_zero_crossing_loop x y idx = first_zero_crossing_linear_loop x y idx"
  by (induction idx) (simp_all split: sum.splits prod.splits)

lemma zc_closeup_loop_eq:
  "zc_closeup_loop x y idx None = first_zero_crossing_linear_loop x y idx"
  by (induction idx) (simp_all split: sum.splits prod.splits)

text \<open>
  C10. The four first-crossing scans (\<^verbatim>\<open>first_zero_crossing_linear\<close> of
  \<^verbatim>\<open>zero_crossings_AE_RMST.py\<close> and of \<^verbatim>\<open>make_fig23.py\<close>, \<^verbatim>\<open>first_zero_crossing\<close> of
  \<^verbatim>\<open>make_fig6.py\<close>, and the loop of \<^verbatim>\<open>zero_crossing_AE_closeup.py\<close>) return the same
  result on every pair of arrays: the same location, or \<open>None\<close> in all four, or the
  same error.
\<close>

theorem first_variants_agree:
  "first_zero_crossing_linear_AE_RMST x y = first_zero_crossing_linear x y
   \<and> first_zero_crossing x y = first_zero_crossing_linear x y
   \<and> zc_closeup x y = first_zero_crossing_linear x y"
  by (simp add: first_zero_crossing_linear_AE_RMST_def first_zero_crossing_def zc_closeup_def
      first_zero_crossing_linear_def asarray_float_def AE_RMST_loop_eq
      first_zero_crossing_loop_eq zc_closeup_loop_eq)

end
